theory Spec2Isabelle
  imports Main "HOL-Library.Word"
begin

section \<open>Patient id resolver: a shallow embedding of \<open>patient-id-resolver.js\<close>\<close>

subsection \<open>ECMAScript strings\<close>

text \<open>
  An ECMAScript string is a sequence of 16-bit code units. \<open>js\<close> writes an ASCII
  literal as such a sequence.
\<close>

type_synonym jsstring = "16 word list"

definition js :: "string \<Rightarrow> jsstring" where
  "js s = map of_char s"

text \<open>
  \<open>String.prototype.trim\<close> strips the code points of the productions WhiteSpace and
  LineTerminator from both ends. All of them lie in the basic plane, so the test is on
  single code units.
\<close>

definition isWhiteSpace :: "16 word \<Rightarrow> bool" where
  "isWhiteSpace u \<longleftrightarrow>
     u = 0x0009 \<or> u = 0x000A \<or> u = 0x000B \<or> u = 0x000C \<or> u = 0x000D \<or> u = 0x0020 \<or>
     u = 0x00A0 \<or> u = 0x1680 \<or> (0x2000 \<le> u \<and> u \<le> 0x200A) \<or> u = 0x2028 \<or>
     u = 0x2029 \<or> u = 0x202F \<or> u = 0x205F \<or> u = 0x3000 \<or> u = 0xFEFF"

definition trim :: "jsstring \<Rightarrow> jsstring" where
  "trim s = rev (dropWhile isWhiteSpace (rev (dropWhile isWhiteSpace s)))"

text \<open>
  \<open>String.prototype.toLowerCase\<close>, on the letters A to Z. The only use in the resolver
  compares the outcome with the literal \<open>'patient'\<close>. Outside ASCII the Unicode mapping
  yields code units outside ASCII again, except U+212A (to \<open>k\<close>, a letter that
  \<open>'patient'\<close> does not have) and U+0130 (to \<open>i\<close> followed by U+0307, which changes the
  length), so that comparison comes out the same with the other code units left as
  they are.
\<close>

definition lowerUnit :: "16 word \<Rightarrow> 16 word" where
  "lowerUnit u = (if 0x41 \<le> u \<and> u \<le> 0x5A then u + 0x20 else u)"

definition toLowerCase :: "jsstring \<Rightarrow> jsstring" where
  "toLowerCase s = map lowerUnit s"

text \<open>
  The two values that the guard of the phone fallback can compare with \<open>true\<close>, and
  the loose comparison \<open>v == true\<close> on them.
\<close>

datatype jsvalue = JSUndefined | JSBoolean bool

definition looseEqTrue :: "jsvalue \<Rightarrow> bool" where
  "looseEqTrue v = (case v of JSUndefined \<Rightarrow> False | JSBoolean b \<Rightarrow> b)"

text \<open>
  Reading the property \<open>isNotEmpty\<close> of a string: neither a string value nor
  \<open>String.prototype\<close> has a property of that name, so the read yields \<open>undefined\<close>
  whatever the string is.
\<close>

definition isNotEmpty :: "jsstring \<Rightarrow> jsvalue" where
  "isNotEmpty s = JSUndefined"

subsection \<open>Data model\<close>

text \<open>
  The caller's profile. A field is \<open>None\<close> when it is missing, \<open>null\<close> or
  \<open>undefined\<close> (a missing profile behaves as the profile with no field). \<open>role\<close> and
  \<open>phone\<close> hold what \<open>toString()\<close> returns for the stored value; \<open>patientId\<close> is a
  string.
\<close>

record profile =
  role :: "jsstring option"
  patientId :: "jsstring option"
  phone :: "jsstring option"

text \<open>
  A document of the collection \<open>patients\<close>: its document id and the three fields the
  resolver reads. \<open>idField\<close> is the field named \<open>id\<close> inside the document.
\<close>

record chart =
  docId :: jsstring
  idField :: "jsstring option"
  userId :: "jsstring option"
  chartPhone :: "jsstring option"

datatype field = FieldPhone | FieldId | FieldUserId

text \<open>The lookups the resolver sends to the store: \<open>doc(id).get()\<close> and
  \<open>where(field, '==', value).limit(n).get()\<close>.\<close>

datatype query = DocGet jsstring | WhereEq field jsstring nat

datatype error = LookupError

text \<open>
  The store: the documents of the collection in the order in which a query returns
  them, and the lookups that are rejected (an outage, or an argument that the client
  refuses). A lookup either throws or answers from the documents: \<open>DocGet\<close> with the
  document of that id when it exists (the snapshot's \<open>exists\<close> is then true) and with
  nothing otherwise, \<open>WhereEq\<close> with the first \<open>n\<close> documents whose field is the
  string asked for. One run never sends the same lookup twice, so choosing the failing
  lookups chooses the outcome of every call of the run.
\<close>

record firestore =
  docs :: "chart list"
  fails :: "query \<Rightarrow> bool"

definition fieldOf :: "field \<Rightarrow> chart \<Rightarrow> jsstring option" where
  "fieldOf f c = (case f of FieldPhone \<Rightarrow> chartPhone c | FieldId \<Rightarrow> idField c
     | FieldUserId \<Rightarrow> userId c)"

definition answer :: "firestore \<Rightarrow> query \<Rightarrow> chart list" where
  "answer fs q = (case q of
       DocGet i \<Rightarrow> take 1 (filter (\<lambda>c. docId c = i) (docs fs))
     | WhereEq f v n \<Rightarrow> take n (filter (\<lambda>c. fieldOf f c = Some v) (docs fs)))"

text \<open>
  The state of one run: the \<open>Set\<close> \<open>patientIds\<close> in insertion order, and the lookups
  sent to the store so far, in order.
\<close>

record rstate =
  patientIds :: "jsstring list"
  queries :: "query list"

definition setAdd :: "jsstring \<Rightarrow> jsstring list \<Rightarrow> jsstring list" where
  "setAdd x xs = (if x \<in> set xs then xs else xs @ [x])"

definition add :: "jsstring \<Rightarrow> rstate \<Rightarrow> rstate" where
  "add x s = s\<lparr>patientIds := setAdd x (patientIds s)\<rparr>"

text \<open>\<open>if (!snapshot.empty) snapshot.docs.forEach(doc => patientIds.add(doc.id))\<close>\<close>

definition addDocs :: "chart list \<Rightarrow> rstate \<Rightarrow> rstate" where
  "addDocs cs s = (if cs \<noteq> [] then fold (\<lambda>d. add (docId d)) cs s else s)"

text \<open>Sending a lookup records it and gives the error or the snapshot.\<close>

definition get :: "firestore \<Rightarrow> query \<Rightarrow> rstate \<Rightarrow> (error + chart list) \<times> rstate" where
  "get fs q s =
     (if fails fs q then Inl LookupError else Inr (answer fs q),
      s\<lparr>queries := queries s @ [q]\<rparr>)"

subsection \<open>The strategies of \<open>resolvePatientIds\<close>\<close>

definition isPatient :: "profile \<Rightarrow> bool" where
  "isPatient p = (case role p of None \<Rightarrow> False | Some r \<Rightarrow> toLowerCase r = js ''patient'')"

text \<open>Strategy 1: the profile's \<open>patientId\<close>, trimmed, when it is not blank.\<close>

definition strategy1 :: "profile \<Rightarrow> rstate \<Rightarrow> rstate" where
  "strategy1 p s = (case patientId p of
       None \<Rightarrow> s
     | Some i \<Rightarrow> if i \<noteq> [] \<and> trim i \<noteq> [] then add (trim i) s else s)"

text \<open>The guard of strategy 1b next to \<open>isPatient\<close>:
  \<open>profile?.phone?.toString().trim().isNotEmpty == true\<close>.\<close>

definition phoneGuard :: "profile \<Rightarrow> bool" where
  "phoneGuard p = (case phone p of None \<Rightarrow> looseEqTrue JSUndefined
     | Some ph \<Rightarrow> looseEqTrue (isNotEmpty (trim ph)))"

text \<open>Strategy 1b: charts with the profile's phone number, at most five. Each
  strategy below is the body of one \<open>try\<close>: a lookup that throws ends the body, the
  handler logs, and the state reached so far is kept.\<close>

definition strategy1b :: "firestore \<Rightarrow> profile \<Rightarrow> rstate \<Rightarrow> rstate" where
  "strategy1b fs p s = (case phone p of
       None \<Rightarrow> s
     | Some ph \<Rightarrow>
        (case get fs (WhereEq FieldPhone (trim ph) 5) s of
           (Inl e, s1) \<Rightarrow> s1
         | (Inr chartsByPhone, s1) \<Rightarrow> addDocs chartsByPhone s1))"

text \<open>Strategy 2 (2a0, 2a, 2b): a patient asking for the own uid.\<close>

definition strategy2 :: "firestore \<Rightarrow> jsstring \<Rightarrow> rstate \<Rightarrow> rstate" where
  "strategy2 fs requestedId s =
     (case get fs (WhereEq FieldId requestedId 5) s of
        (Inl e, s1) \<Rightarrow> s1
      | (Inr chartsByIdField, s1) \<Rightarrow>
         (case get fs (WhereEq FieldUserId requestedId 5) (addDocs chartsByIdField s1) of
            (Inl e, s2) \<Rightarrow> s2
          | (Inr chartsByUserId, s2) \<Rightarrow>
             (case get fs (DocGet requestedId) (addDocs chartsByUserId s2) of
                (Inl e, s3) \<Rightarrow> s3
              | (Inr [], s3) \<Rightarrow> s3
              | (Inr (directPatientDoc # _), s3) \<Rightarrow>
                 (let s4 = add (docId directPatientDoc) s3 in
                  case userId directPatientDoc of
                    None \<Rightarrow> s4
                  | Some u \<Rightarrow> if u \<noteq> [] \<and> u \<noteq> requestedId then add u s4 else s4))))"

text \<open>Strategy 2c: a patient asking for an id that is not the own uid.\<close>

definition strategy2c :: "firestore \<Rightarrow> jsstring \<Rightarrow> jsstring \<Rightarrow> rstate \<Rightarrow> rstate" where
  "strategy2c fs requestedId userUid s =
     (case get fs (DocGet requestedId) s of
        (Inl e, s1) \<Rightarrow> s1
      | (Inr chartDoc, s1) \<Rightarrow>
         (let s2 = (case chartDoc of
                      [] \<Rightarrow> s1
                    | d # _ \<Rightarrow> (case userId d of
                                 None \<Rightarrow> s1
                               | Some u \<Rightarrow> if u \<noteq> [] then add u s1 else s1))
          in if userUid \<noteq> [] then
               (case get fs (WhereEq FieldId userUid 5) s2 of
                  (Inl e, s3) \<Rightarrow> s3
                | (Inr chartsByIdField, s3) \<Rightarrow>
                   (case get fs (WhereEq FieldUserId userUid 5) (addDocs chartsByIdField s3) of
                      (Inl e, s4) \<Rightarrow> s4
                    | (Inr chartsByUserId, s4) \<Rightarrow> addDocs chartsByUserId s4))
             else s2))"

text \<open>Strategy 3: staff. The two searches run only when no chart has the requested
  id; each takes the first document of its snapshot.\<close>

definition strategy3 :: "firestore \<Rightarrow> jsstring \<Rightarrow> rstate \<Rightarrow> rstate" where
  "strategy3 fs requestedId s =
     (case get fs (DocGet requestedId) s of
        (Inl e, s1) \<Rightarrow> s1
      | (Inr (chartDoc # _), s1) \<Rightarrow>
         (case userId chartDoc of
            None \<Rightarrow> s1
          | Some u \<Rightarrow> if u \<noteq> [] then add u s1 else s1)
      | (Inr [], s1) \<Rightarrow>
         (case get fs (WhereEq FieldId requestedId 1) s1 of
            (Inl e, s2) \<Rightarrow> s2
          | (Inr chartsByIdField, s2) \<Rightarrow>
             (let s3 = (case chartsByIdField of [] \<Rightarrow> s2 | d # _ \<Rightarrow> add (docId d) s2) in
              case get fs (WhereEq FieldUserId requestedId 1) s3 of
                (Inl e, s4) \<Rightarrow> s4
              | (Inr chartsByUserId, s4) \<Rightarrow>
                 (case chartsByUserId of [] \<Rightarrow> s4 | d # _ \<Rightarrow> add (docId d) s4))))"

subsection \<open>\<open>resolvePatientIds\<close>\<close>

text \<open>The run up to the final filter: the set and the lookups sent.\<close>

definition runResolver :: "firestore \<Rightarrow> jsstring \<Rightarrow> jsstring \<Rightarrow> profile \<Rightarrow> rstate" where
  "runResolver fs requestedId userUid p =
     (let s0 = add requestedId \<lparr>patientIds = [], queries = []\<rparr>;
          isSelfAccess = (userUid = requestedId);
          s1 = (if isPatient p \<and> userUid \<noteq> [] then add userUid s0 else s0);
          s2 = strategy1 p s1;
          s3 = (if isPatient p \<and> phoneGuard p then strategy1b fs p s2 else s2);
          s4 = (if isPatient p \<and> isSelfAccess then strategy2 fs requestedId s3 else s3);
          s5 = (if isPatient p \<and> \<not> isSelfAccess \<and> requestedId \<noteq> []
                then strategy2c fs requestedId userUid s4 else s4)
      in if \<not> isPatient p \<and> requestedId \<noteq> [] then strategy3 fs requestedId s5 else s5)"

text \<open>\<open>id && id.trim() !== ''\<close>\<close>

definition nonBlank :: "jsstring \<Rightarrow> bool" where
  "nonBlank i \<longleftrightarrow> i \<noteq> [] \<and> trim i \<noteq> []"

definition resolvePatientIds :: "firestore \<Rightarrow> jsstring \<Rightarrow> jsstring \<Rightarrow> profile \<Rightarrow> jsstring list" where
  "resolvePatientIds fs requestedId userUid p =
     filter nonBlank (patientIds (runResolver fs requestedId userUid p))"

definition lookupsSent :: "firestore \<Rightarrow> jsstring \<Rightarrow> jsstring \<Rightarrow> profile \<Rightarrow> query list" where
  "lookupsSent fs requestedId userUid p = queries (runResolver fs requestedId userUid p)"

subsection \<open>\<open>resolvePatientIdsCached\<close>\<close>

text \<open>
  The module's \<open>Map\<close> from cache key to entry, in insertion order. \<open>mapSet\<close> is
  \<open>Map.prototype.set\<close>: it replaces the value of a key that is there and appends a new
  key; \<open>map_of\<close> is \<open>Map.prototype.get\<close>, the length is \<open>size\<close>.
\<close>

record cacheEntry =
  ids :: "jsstring list"
  timestamp :: int

type_synonym cache = "(jsstring \<times> cacheEntry) list"

definition CACHE_TTL :: int where
  "CACHE_TTL = 5 * 60 * 1000"

fun mapSet :: "jsstring \<Rightarrow> cacheEntry \<Rightarrow> cache \<Rightarrow> cache" where
  "mapSet k v [] = [(k, v)]"
| "mapSet k v ((k', v') # c) = (if k' = k then (k, v) # c else (k', v') # mapSet k v c)"

text \<open>The loop that deletes every entry with \<open>now - value.timestamp > CACHE_TTL\<close>.\<close>

definition sweep :: "int \<Rightarrow> cache \<Rightarrow> cache" where
  "sweep now c = filter (\<lambda>(key, value). \<not> (now - timestamp value > CACHE_TTL)) c"

text \<open>What a call gives back: the array returned, the lookups it sent to the store and
  the cache it leaves.\<close>

record outcome =
  returned :: "jsstring list"
  sent :: "query list"
  cacheAfter :: cache

definition cacheKey :: "jsstring \<Rightarrow> jsstring \<Rightarrow> jsstring" where
  "cacheKey userUid requestedId = userUid @ js '':'' @ requestedId"

text \<open>The part after the cache check: resolve, store, clean up. \<open>t2\<close> and \<open>t3\<close> are
  the readings of \<open>Date.now()\<close> at the store and in the clean-up.\<close>

definition resolveAndCache ::
  "firestore \<Rightarrow> int \<Rightarrow> int \<Rightarrow> cache \<Rightarrow> jsstring \<Rightarrow> jsstring \<Rightarrow> profile \<Rightarrow> outcome" where
  "resolveAndCache fs t2 t3 patientIdCache requestedId userUid p =
     (let resolved = resolvePatientIds fs requestedId userUid p;
          c1 = mapSet (cacheKey userUid requestedId) \<lparr>ids = resolved, timestamp = t2\<rparr>
                 patientIdCache;
          c2 = (if length c1 > 1000 then sweep t3 c1 else c1)
      in \<lparr>returned = resolved, sent = lookupsSent fs requestedId userUid p, cacheAfter = c2\<rparr>)"

text \<open>\<open>t1\<close> is the reading of \<open>Date.now()\<close> in the cache check.\<close>

definition resolvePatientIdsCached ::
  "firestore \<Rightarrow> int \<Rightarrow> int \<Rightarrow> int \<Rightarrow> cache \<Rightarrow> jsstring \<Rightarrow> jsstring \<Rightarrow> profile \<Rightarrow> outcome" where
  "resolvePatientIdsCached fs t1 t2 t3 patientIdCache requestedId userUid p =
     (case map_of patientIdCache (cacheKey userUid requestedId) of
        None \<Rightarrow> resolveAndCache fs t2 t3 patientIdCache requestedId userUid p
      | Some cached \<Rightarrow>
         if t1 - timestamp cached < CACHE_TTL
         then \<lparr>returned = ids cached, sent = [], cacheAfter = patientIdCache\<rparr>
         else resolveAndCache fs t2 t3 patientIdCache requestedId userUid p)"

subsection \<open>Notions the properties are stated with\<close>

text \<open>Two code units that are the same letter up to case: equal, or a letter A to Z and
  its lower-case form. Two strings are equal ignoring case when they are so unit by unit.\<close>

definition sameLetter :: "16 word \<Rightarrow> 16 word \<Rightarrow> bool" where
  "sameLetter x y \<longleftrightarrow>
     x = y \<or> (0x41 \<le> x \<and> x \<le> 0x5A \<and> y = x + 0x20) \<or> (0x41 \<le> y \<and> y \<le> 0x5A \<and> x = y + 0x20)"

definition equalIgnoringCase :: "jsstring \<Rightarrow> jsstring \<Rightarrow> bool" where
  "equalIgnoringCase a b = list_all2 sameLetter a b"

text \<open>The lookups of a list that are sent when the first failing one ends the
  sequence: those up to and including it.\<close>

fun untilFailure :: "(query \<Rightarrow> bool) \<Rightarrow> query list \<Rightarrow> query list" where
  "untilFailure F [] = []"
| "untilFailure F (q # qs) = q # (if F q then [] else untilFailure F qs)"



subsection \<open>Example inputs\<close>

definition noFailures :: "query \<Rightarrow> bool" where
  "noFailures q = False"

definition outage :: "query \<Rightarrow> bool" where
  "outage q = True"

definition patientProfile :: profile where
  "patientProfile = \<lparr>role = Some (js ''patient''), patientId = None, phone = None\<rparr>"

definition patientWithPhone :: profile where
  "patientWithPhone = \<lparr>role = Some (js ''patient''), patientId = None, phone = Some (js ''555'')\<rparr>"

definition doctorProfile :: profile where
  "doctorProfile = \<lparr>role = Some (js ''doctor''), patientId = None, phone = None\<rparr>"

definition chartC1 :: chart where
  "chartC1 = \<lparr>docId = js ''C1'', idField = None, userId = Some (js ''U1''), chartPhone = None\<rparr>"

definition chartC9 :: chart where
  "chartC9 = \<lparr>docId = js ''C9'', idField = None, userId = Some (js ''U1''), chartPhone = None\<rparr>"

definition chartP1 :: chart where
  "chartP1 = \<lparr>docId = js ''P1'', idField = None, userId = None, chartPhone = Some (js ''555'')\<rparr>"

definition patientUpperCase :: profile where
  "patientUpperCase = \<lparr>role = Some (js ''PATIENT''), patientId = None, phone = None\<rparr>"

definition noRoleProfile :: profile where
  "noRoleProfile = \<lparr>role = None, patientId = None, phone = None\<rparr>"

text \<open>Stores in which one search fails.\<close>

definition idSearchFails :: "query \<Rightarrow> bool" where
  "idSearchFails q = (q = WhereEq FieldId (js ''U1'') 5)"

definition userIdSearchFails :: "query \<Rightarrow> bool" where
  "userIdSearchFails q = (q = WhereEq FieldUserId (js ''U1'') 5)"

definition chartC5 :: chart where
  "chartC5 = \<lparr>docId = js ''C5'', idField = Some (js ''U1''), userId = None, chartPhone = None\<rparr>"

text \<open>A cache of 1001 entries stored at time 0 under keys that no pair of ids gives,
  and two caches of one entry.\<close>

definition staleCache :: cache where
  "staleCache = map (\<lambda>n. (replicate n 0x61, \<lparr>ids = [], timestamp = 0\<rparr>)) [0..<1001]"


definition cachedOther :: cache where
  "cachedOther = [(cacheKey (js ''D2'') (js ''U2''), \<lparr>ids = [js ''OLD''], timestamp = 0\<rparr>)]"

section \<open>Properties\<close>

subsection \<open>Basic facts\<close>

text \<open>The equations that evaluate a run on a concrete input.\<close>

lemmas example_defs = js_def noFailures_def outage_def patientProfile_def patientWithPhone_def
  doctorProfile_def chartC1_def chartC9_def chartP1_def

lemmas resolver_defs = resolvePatientIds_def lookupsSent_def runResolver_def isPatient_def
  toLowerCase_def lowerUnit_def strategy1_def strategy1b_def strategy2_def strategy2c_def
  strategy3_def get_def answer_def fieldOf_def add_def addDocs_def setAdd_def nonBlank_def
  trim_def isWhiteSpace_def phoneGuard_def looseEqTrue_def isNotEmpty_def

text \<open>The set and the lookups after each operation on the state.\<close>

lemma patientIds_add [simp]: "set (patientIds (add x s)) = insert x (set (patientIds s))"
  by (auto simp: add_def setAdd_def)

lemma queries_add [simp]: "queries (add x s) = queries s"
  by (simp add: add_def)

lemma patientIds_addDocs [simp]:
  "set (patientIds (addDocs cs s)) = set (patientIds s) \<union> docId ` set cs"
proof -
  have "set (patientIds (fold (\<lambda>d. add (docId d)) cs t)) = set (patientIds t) \<union> docId ` set cs" for t
    by (induction cs arbitrary: t) auto
  then show ?thesis by (simp add: addDocs_def)
qed

lemma queries_addDocs [simp]: "queries (addDocs cs s) = queries s"
proof -
  have "queries (fold (\<lambda>d. add (docId d)) cs t) = queries t" for t
    by (induction cs arbitrary: t) auto
  then show ?thesis by (simp add: addDocs_def)
qed

text \<open>No strategy removes an id, whatever fails.\<close>

lemma in_strategy1: "x \<in> set (patientIds s) \<Longrightarrow> x \<in> set (patientIds (strategy1 p s))"
  by (auto simp: strategy1_def split: option.splits)

lemma in_strategy1b: "x \<in> set (patientIds s) \<Longrightarrow> x \<in> set (patientIds (strategy1b fs p s))"
  by (auto simp: strategy1b_def get_def split: option.splits)

lemma in_strategy2: "x \<in> set (patientIds s) \<Longrightarrow> x \<in> set (patientIds (strategy2 fs r s))"
  by (auto simp: strategy2_def get_def Let_def split: option.splits list.splits)

lemma in_strategy2c: "x \<in> set (patientIds s) \<Longrightarrow> x \<in> set (patientIds (strategy2c fs r u s))"
  by (auto simp: strategy2c_def get_def Let_def split: option.splits list.splits)

lemma in_strategy3: "x \<in> set (patientIds s) \<Longrightarrow> x \<in> set (patientIds (strategy3 fs r s))"
  by (auto simp: strategy3_def get_def Let_def split: option.splits list.splits)

lemmas in_strategies = in_strategy1 in_strategy1b in_strategy2 in_strategy2c in_strategy3

lemma phoneGuard_False [simp]: "\<not> phoneGuard p"
  by (simp add: phoneGuard_def looseEqTrue_def isNotEmpty_def split: option.splits)

lemma requestedId_collected:
  "requestedId \<in> set (patientIds (runResolver fs requestedId userUid p))"
  by (auto simp: runResolver_def Let_def intro!: in_strategies)

lemma userUid_collected:
  "isPatient p \<Longrightarrow> userUid \<noteq> [] \<Longrightarrow> userUid \<in> set (patientIds (runResolver fs requestedId userUid p))"
  by (auto simp: runResolver_def Let_def intro!: in_strategies)

text \<open>A string trims to the empty string exactly when it is white space only.\<close>

lemma trim_eq_Nil_iff: "trim s = [] \<longleftrightarrow> (\<forall>c\<in>set s. isWhiteSpace c)"
proof
  assume "trim s = []"
  then have *: "\<forall>c\<in>set (dropWhile isWhiteSpace s). isWhiteSpace c"
    by (simp add: trim_def dropWhile_eq_Nil_conv)
  have "dropWhile isWhiteSpace s = []"
  proof (rule ccontr)
    assume ne: "dropWhile isWhiteSpace s \<noteq> []"
    then have "\<not> isWhiteSpace (hd (dropWhile isWhiteSpace s))"
      by (rule hd_dropWhile)
    with * ne show False by (meson hd_in_set)
  qed
  then show "\<forall>c\<in>set s. isWhiteSpace c"
    by (simp add: dropWhile_eq_Nil_conv)
next
  assume "\<forall>c\<in>set s. isWhiteSpace c"
  then show "trim s = []"
    by (auto simp: trim_def dest: set_dropWhileD)
qed

text \<open>Fetching by document id, when ids are unique.\<close>

lemma answer_DocGet_exists:
  assumes "distinct (map docId (docs fs))" and "c \<in> set (docs fs)"
  shows "answer fs (DocGet (docId c)) = [c]"
proof -
  have "distinct (map docId ds) \<Longrightarrow> c \<in> set ds \<Longrightarrow> filter (\<lambda>d. docId d = docId c) ds = [c]" for ds
  proof (induction ds)
    case Nil
    then show ?case by simp
  next
    case (Cons d ds)
    show ?case
    proof (cases "d = c")
      case True
      with Cons.prems have "\<forall>e\<in>set ds. docId e \<noteq> docId c" by (auto simp: image_iff)
      then have "filter (\<lambda>d. docId d = docId c) ds = []" by (simp add: filter_empty_conv)
      with True show ?thesis by simp
    next
      case False
      with Cons.prems have "c \<in> set ds" and "docId d \<noteq> docId c" by auto
      with Cons show ?thesis by simp
    qed
  qed
  with assms show ?thesis by (simp add: answer_def)
qed

lemma answer_DocGet_none:
  "\<forall>c\<in>set (docs fs). docId c \<noteq> i \<Longrightarrow> answer fs (DocGet i) = []"
  by (simp add: answer_def filter_empty_conv)

lemma trim_Nil [simp]: "trim [] = []"
  by (simp add: trim_def)

lemma patientIds_addFirst:
  "set (patientIds (case cs of [] \<Rightarrow> s | d # x \<Rightarrow> add (docId d) s)) =
     set (patientIds s) \<union> docId ` set (take 1 cs)"
  by (cases cs) auto

lemma queries_addFirst:
  "queries (case cs of [] \<Rightarrow> s | d # x \<Rightarrow> add (docId d) s) = queries s"
  by (cases cs) auto

lemma patientIds_strategy1:
  "set (patientIds (strategy1 p s)) =
     set (patientIds s) \<union> {x \<in> set_option (map_option trim (patientId p)). x \<noteq> []}"
  by (auto simp: strategy1_def split: option.splits)

lemma queries_strategy1 [simp]: "queries (strategy1 p s) = queries s"
  by (simp add: strategy1_def split: option.splits)

lemma nonBlank_not_Nil: "nonBlank x \<Longrightarrow> x \<noteq> []"
  by (simp add: nonBlank_def)

lemma isPatient_patientProfile: "isPatient patientProfile"
  by (simp add: isPatient_def patientProfile_def js_def toLowerCase_def lowerUnit_def)

lemma not_isPatient_doctorProfile: "\<not> isPatient doctorProfile"
  by (simp add: isPatient_def doctorProfile_def js_def toLowerCase_def lowerUnit_def)

lemma nonBlank_examples:
  "nonBlank (js ''U1'')" "nonBlank (js ''C1'')" "nonBlank (js ''C9'')" "nonBlank (js ''P1'')"
  by (simp_all add: nonBlank_def trim_def isWhiteSpace_def js_def)

text \<open>Lower-casing gives a lower-case word exactly for the strings equal to it
  ignoring case.\<close>

lemma lowerUnit_eq_iff:
  assumes "0x61 \<le> y" and "y \<le> 0x7A"
  shows "lowerUnit x = y \<longleftrightarrow> sameLetter x y"
  using assms unfolding lowerUnit_def sameLetter_def
  by (auto; unat_arith)

lemma toLowerCase_eq_iff:
  assumes "\<forall>y\<in>set l. 0x61 \<le> y \<and> y \<le> 0x7A"
  shows "toLowerCase r = l \<longleftrightarrow> equalIgnoringCase r l"
proof -
  have "toLowerCase r = l \<longleftrightarrow> list_all2 (\<lambda>x y. lowerUnit x = y) r l"
    by (simp add: toLowerCase_def list_all2_conv_all_nth list_eq_iff_nth_eq)
  also have "\<dots> \<longleftrightarrow> list_all2 sameLetter r l"
    using assms by (auto simp: list_all2_conv_all_nth lowerUnit_eq_iff)
  finally show ?thesis by (simp add: equalIgnoringCase_def)
qed

lemma isPatient_iff:
  "isPatient p \<longleftrightarrow> (\<exists>r. role p = Some r \<and> equalIgnoringCase r (js ''patient''))"
proof -
  have "\<forall>y\<in>set (js ''patient''). 0x61 \<le> y \<and> y \<le> 0x7A"
    by (simp add: js_def)
  then show ?thesis
    by (simp add: isPatient_def toLowerCase_eq_iff split: option.splits)
qed

text \<open>The lookups of each strategy: its list, cut after the first failure.\<close>

lemma queries_strategy1b:
  "phone p = Some ph \<Longrightarrow>
     queries (strategy1b fs p s) = queries s @ untilFailure (fails fs) [WhereEq FieldPhone (trim ph) 5]"
  by (simp add: strategy1b_def get_def)

lemma queries_strategy2:
  "queries (strategy2 fs r s) = queries s @
     untilFailure (fails fs) [WhereEq FieldId r 5, WhereEq FieldUserId r 5, DocGet r]"
  by (simp add: strategy2_def get_def Let_def split: list.splits option.splits)

lemma queries_strategy2c:
  "queries (strategy2c fs r u s) = queries s @
     untilFailure (fails fs)
       (DocGet r # (if u \<noteq> [] then [WhereEq FieldId u 5, WhereEq FieldUserId u 5] else []))"
  by (simp add: strategy2c_def get_def Let_def split: list.splits option.splits)

lemma queries_strategy3:
  "queries (strategy3 fs r s) = queries s @
     untilFailure (fails fs)
       (DocGet r # (if answer fs (DocGet r) = [] then [WhereEq FieldId r 1, WhereEq FieldUserId r 1]
                    else []))"
  by (simp add: strategy3_def get_def Let_def queries_addFirst split: list.splits option.splits)

lemma set_untilFailure: "set (untilFailure F qs) \<subseteq> set qs"
  by (induction qs) auto

text \<open>No run sends a search by phone number.\<close>

lemma no_phone_lookup: "WhereEq FieldPhone v n \<notin> set (lookupsSent fs r u p)"
proof -
  have "q \<in> set (lookupsSent fs r u p) \<Longrightarrow> q \<noteq> WhereEq FieldPhone v n" for q
    by (auto simp: lookupsSent_def runResolver_def Let_def queries_strategy2 queries_strategy2c
          queries_strategy3 dest!: subsetD [OF set_untilFailure] split: if_splits)
  then show ?thesis by blast
qed

text \<open>Failures only lose ids: a run is bounded by the run without failures, and bounds
  the run under a total outage.\<close>

lemma strategy2_le:
  "set (patientIds (strategy2 fs r s)) \<subseteq> set (patientIds (strategy2 (fs\<lparr>fails := noFailures\<rparr>) r s))"
  by (auto simp: strategy2_def get_def answer_def noFailures_def Let_def
        split: list.splits option.splits)

lemma strategy2c_le:
  "set (patientIds (strategy2c fs r u s)) \<subseteq> set (patientIds (strategy2c (fs\<lparr>fails := noFailures\<rparr>) r u s))"
  by (auto simp: strategy2c_def get_def answer_def noFailures_def Let_def
        split: list.splits option.splits)

lemma strategy3_le:
  "set (patientIds (strategy3 fs r s)) \<subseteq> set (patientIds (strategy3 (fs\<lparr>fails := noFailures\<rparr>) r s))"
  by (auto simp: strategy3_def get_def answer_def noFailures_def Let_def patientIds_addFirst
        split: list.splits option.splits)

lemma strategy2_outage:
  "patientIds (strategy2 (fs\<lparr>fails := outage\<rparr>) r s) = patientIds s"
  by (simp add: strategy2_def get_def outage_def)

lemma strategy2c_outage:
  "patientIds (strategy2c (fs\<lparr>fails := outage\<rparr>) r u s) = patientIds s"
  by (simp add: strategy2c_def get_def outage_def)

lemma strategy3_outage:
  "patientIds (strategy3 (fs\<lparr>fails := outage\<rparr>) r s) = patientIds s"
  by (simp add: strategy3_def get_def outage_def)

lemma resolve_outage_le:
  "set (resolvePatientIds (fs\<lparr>fails := outage\<rparr>) r u p) \<subseteq> set (resolvePatientIds fs r u p)"
  by (auto simp: resolvePatientIds_def runResolver_def Let_def strategy2_outage strategy2c_outage
        strategy3_outage intro!: in_strategies)

lemma resolve_le_noFailures:
  "set (resolvePatientIds fs r u p) \<subseteq> set (resolvePatientIds (fs\<lparr>fails := noFailures\<rparr>) r u p)"
  by (auto simp: resolvePatientIds_def runResolver_def Let_def
        dest: subsetD [OF strategy2_le] subsetD [OF strategy2c_le] subsetD [OF strategy3_le])

lemma first_lookup_sent:
  "isPatient p \<and> u = r \<longrightarrow> WhereEq FieldId r 5 \<in> set (lookupsSent fs r u p)"
  "isPatient p \<and> u \<noteq> r \<and> r \<noteq> [] \<longrightarrow> DocGet r \<in> set (lookupsSent fs r u p)"
  "\<not> isPatient p \<and> r \<noteq> [] \<longrightarrow> DocGet r \<in> set (lookupsSent fs r u p)"
  by (simp_all add: lookupsSent_def runResolver_def Let_def queries_strategy2 queries_strategy2c
        queries_strategy3)

text \<open>The documents found before a failure are in the set.\<close>

lemma found_strategy2:
  "\<not> fails fs (WhereEq FieldId r 5) \<longrightarrow>
     docId ` set (answer fs (WhereEq FieldId r 5)) \<subseteq> set (patientIds (strategy2 fs r s))"
  "\<not> fails fs (WhereEq FieldId r 5) \<and> \<not> fails fs (WhereEq FieldUserId r 5) \<longrightarrow>
     docId ` set (answer fs (WhereEq FieldUserId r 5)) \<subseteq> set (patientIds (strategy2 fs r s))"
  by (auto simp: strategy2_def get_def Let_def split: list.splits option.splits)

lemma found_strategy2c:
  "u \<noteq> [] \<and> \<not> fails fs (DocGet r) \<and> \<not> fails fs (WhereEq FieldId u 5) \<longrightarrow>
     docId ` set (answer fs (WhereEq FieldId u 5)) \<subseteq> set (patientIds (strategy2c fs r u s))"
  by (auto simp: strategy2c_def get_def Let_def split: list.splits option.splits)

lemma found_strategy3:
  "answer fs (DocGet r) = [] \<and> \<not> fails fs (DocGet r) \<and> \<not> fails fs (WhereEq FieldId r 1) \<longrightarrow>
     docId ` set (answer fs (WhereEq FieldId r 1)) \<subseteq> set (patientIds (strategy3 fs r s))"
proof -
  have "take 1 (answer fs (WhereEq FieldId r 1)) = answer fs (WhereEq FieldId r 1)"
    by (simp add: answer_def)
  then show ?thesis
    by (auto simp: strategy3_def get_def Let_def patientIds_addFirst)
qed


lemma keys_mapSet: "fst ` set (mapSet k v c) = insert k (fst ` set c)"
proof (induction c)
  case Nil
  show ?case by simp
next
  case (Cons kv c)
  obtain k' v' where kv: "kv = (k', v')" by (cases kv)
  show ?case
  proof (cases "k' = k")
    case True
    with kv show ?thesis by simp
  next
    case False
    with kv Cons show ?thesis by (simp add: insert_commute)
  qed
qed

lemma distinct_mapSet: "distinct (map fst c) \<Longrightarrow> distinct (map fst (mapSet k v c))"
proof (induction c)
  case Nil
  show ?case by simp
next
  case (Cons kv c)
  obtain k' v' where kv: "kv = (k', v')" by (cases kv)
  with Cons show ?case
    by (cases "k' = k") (simp_all add: keys_mapSet)
qed

lemma mapSet_new: "k \<notin> fst ` set c \<Longrightarrow> mapSet k v c = c @ [(k, v)]"
  by (induction c) auto

lemma sweep_eq: "sweep now c = filter (\<lambda>kv. now - timestamp (snd kv) \<le> CACHE_TTL) c"
  unfolding sweep_def by (rule filter_cong) auto


lemma distinct_sweep: "distinct (map fst c) \<Longrightarrow> distinct (map fst (sweep now c))"
  by (simp add: sweep_def distinct_map_filter)

lemma cached_miss:
  assumes "map_of c (cacheKey userUid requestedId) = None \<or>
     (\<exists>e. map_of c (cacheKey userUid requestedId) = Some e \<and> \<not> t1 - timestamp e < CACHE_TTL)"
  shows "resolvePatientIdsCached fs t1 t2 t3 c requestedId userUid p =
     resolveAndCache fs t2 t3 c requestedId userUid p"
  using assms by (auto simp: resolvePatientIdsCached_def)








text \<open>The example inputs.\<close>

lemma doctor_U1_C9:
  "resolvePatientIds \<lparr>docs = [chartC9], fails = noFailures\<rparr> (js ''U1'') (js ''D1'') doctorProfile =
     [js ''U1'', js ''C9'']"
  "lookupsSent \<lparr>docs = [chartC9], fails = noFailures\<rparr> (js ''U1'') (js ''D1'') doctorProfile =
     [DocGet (js ''U1''), WhereEq FieldId (js ''U1'') 1, WhereEq FieldUserId (js ''U1'') 1]"
  by (simp_all add: resolver_defs example_defs)

lemma length_staleCache: "length staleCache = 1001"
  unfolding staleCache_def by (simp only: length_map length_upt)

lemma set_staleCache:
  "set staleCache = (\<lambda>n. (replicate n 0x61, \<lparr>ids = [], timestamp = 0\<rparr>)) ` {0..<1001}"
  unfolding staleCache_def by (simp only: set_map set_upt)

lemma staleCache_keys: "k \<in> fst ` set staleCache \<Longrightarrow> set k \<subseteq> {0x61}"
  unfolding set_staleCache by auto

lemma staleCache_old: "kv \<in> set staleCache \<Longrightarrow> timestamp (snd kv) = 0"
  unfolding set_staleCache by auto

subsection \<open>C1: the phone fallback\<close>

text \<open>
  C1. A patient whose profile has the phone number 555, and a chart P1 with that phone
  number that no other lookup finds: the specification has the resolver ask the store
  for the charts with that phone and add P1. The code sends the three self-access lookups only
  and returns the uid alone, since the guard reads a property that no string has. No
  run, on any input, sends a search by phone number.
\<close>
theorem phone_fallback_not_run:
  "fieldOf FieldPhone chartP1 = phone patientWithPhone \<and>
   isPatient patientWithPhone \<and>
   lookupsSent \<lparr>docs = [chartP1], fails = noFailures\<rparr> (js ''U1'') (js ''U1'') patientWithPhone =
     [WhereEq FieldId (js ''U1'') 5, WhereEq FieldUserId (js ''U1'') 5, DocGet (js ''U1'')] \<and>
   resolvePatientIds \<lparr>docs = [chartP1], fails = noFailures\<rparr> (js ''U1'') (js ''U1'') patientWithPhone =
     [js ''U1''] \<and>
   (\<forall>fs requestedId userUid p v n.
      WhereEq FieldPhone v n \<notin> set (lookupsSent fs requestedId userUid p))"
proof -
  have "fieldOf FieldPhone chartP1 = phone patientWithPhone \<and>
   isPatient patientWithPhone \<and>
   lookupsSent \<lparr>docs = [chartP1], fails = noFailures\<rparr> (js ''U1'') (js ''U1'') patientWithPhone =
     [WhereEq FieldId (js ''U1'') 5, WhereEq FieldUserId (js ''U1'') 5, DocGet (js ''U1'')] \<and>
   resolvePatientIds \<lparr>docs = [chartP1], fails = noFailures\<rparr> (js ''U1'') (js ''U1'') patientWithPhone =
     [js ''U1'']"
    by (simp add: resolver_defs example_defs)
  then show ?thesis
    using no_phone_lookup by blast
qed

subsection \<open>C2: the result is never empty\<close>

text \<open>
  C2, as stated, fails: for a staff caller and a requested id of one space, over a
  store with no chart, the three lookups of strategy 3 find nothing and the array
  returned is empty.
\<close>
theorem blank_request_empty_result:
  "lookupsSent \<lparr>docs = [], fails = noFailures\<rparr> (js '' '') (js ''D1'') doctorProfile =
     [DocGet (js '' ''), WhereEq FieldId (js '' '') 1, WhereEq FieldUserId (js '' '') 1] \<and>
   resolvePatientIds \<lparr>docs = [], fails = noFailures\<rparr> (js '' '') (js ''D1'') doctorProfile = []"
  by (simp add: resolver_defs example_defs)

text \<open>
  C2, amended: whenever the requested id is not blank the result holds it, so the
  result is not empty; a blank requested id is never in the result. This holds for every
  store, whatever lookups fail.
\<close>
theorem requested_id_in_result:
  "(nonBlank requestedId \<longrightarrow>
      requestedId \<in> set (resolvePatientIds fs requestedId userUid p) \<and>
      resolvePatientIds fs requestedId userUid p \<noteq> []) \<and>
   (\<not> nonBlank requestedId \<longrightarrow>
      requestedId \<notin> set (resolvePatientIds fs requestedId userUid p))"
proof -
  have "requestedId \<in> set (resolvePatientIds fs requestedId userUid p)" if "nonBlank requestedId"
    using that requestedId_collected [of requestedId fs userUid p]
    by (simp add: resolvePatientIds_def)
  moreover have "requestedId \<notin> set (resolvePatientIds fs requestedId userUid p)"
    if "\<not> nonBlank requestedId"
    using that by (simp add: resolvePatientIds_def)
  ultimately show ?thesis by auto
qed

theorem requested_id_in_result_witness:
  "nonBlank (js ''U1'') \<and>
   js ''U1'' \<in> set (resolvePatientIds \<lparr>docs = [], fails = outage\<rparr> (js ''U1'') (js ''U2'') doctorProfile) \<and>
   resolvePatientIds \<lparr>docs = [], fails = outage\<rparr> (js ''U1'') (js ''U2'') doctorProfile \<noteq> [] \<and>
   \<not> nonBlank (js '' '') \<and>
   js '' '' \<notin> set (resolvePatientIds \<lparr>docs = [], fails = outage\<rparr> (js '' '') (js ''U2'') doctorProfile)"
proof -
  have a: "nonBlank (js ''U1'')" and b: "\<not> nonBlank (js '' '')"
    by (simp_all add: nonBlank_def trim_def isWhiteSpace_def js_def)
  show ?thesis
    using a b
      requested_id_in_result [of "js ''U1''" "\<lparr>docs = [], fails = outage\<rparr>" "js ''U2''" doctorProfile]
      requested_id_in_result [of "js '' ''" "\<lparr>docs = [], fails = outage\<rparr>" "js ''U2''" doctorProfile]
    by blast
qed

subsection \<open>C3: the requested id, and no blank element\<close>

text \<open>
  C3, as stated, fails: the requested id \<open>" a"\<close> is not blank, and the result does
  not hold its trimmed form \<open>"a"\<close>.
\<close>
theorem untrimmed_request_kept_as_given:
  "nonBlank (js '' a'') \<and>
   trim (js '' a'') \<notin> set (resolvePatientIds \<lparr>docs = [], fails = noFailures\<rparr> (js '' a'') (js ''D1'') doctorProfile)"
  by (simp add: resolver_defs example_defs)

text \<open>
  C3, amended: the result holds the requested id as it was given (not trimmed) whenever
  it is not blank, and no element of the result is empty or made of white space only.
\<close>
theorem result_ids_not_blank:
  "(nonBlank requestedId \<longrightarrow> requestedId \<in> set (resolvePatientIds fs requestedId userUid p)) \<and>
   (\<forall>x\<in>set (resolvePatientIds fs requestedId userUid p). x \<noteq> [] \<and> (\<exists>c\<in>set x. \<not> isWhiteSpace c))"
proof -
  have "requestedId \<in> set (resolvePatientIds fs requestedId userUid p)" if "nonBlank requestedId"
    using that requestedId_collected [of requestedId fs userUid p]
    by (simp add: resolvePatientIds_def)
  moreover have "x \<noteq> [] \<and> (\<exists>c\<in>set x. \<not> isWhiteSpace c)"
    if "x \<in> set (resolvePatientIds fs requestedId userUid p)" for x
    using that by (auto simp: resolvePatientIds_def nonBlank_def trim_eq_Nil_iff)
  ultimately show ?thesis by blast
qed

theorem result_ids_not_blank_witness:
  "nonBlank (js '' a'') \<and>
   js '' a'' \<in> set (resolvePatientIds \<lparr>docs = [], fails = noFailures\<rparr> (js '' a'') (js ''D1'') doctorProfile) \<and>
   js '' a'' \<noteq> [] \<and> (\<exists>c\<in>set (js '' a''). \<not> isWhiteSpace c)"
proof -
  have a: "nonBlank (js '' a'')"
    by (simp add: nonBlank_def trim_def isWhiteSpace_def js_def)
  show ?thesis
    using a result_ids_not_blank [of "js '' a''" "\<lparr>docs = [], fails = noFailures\<rparr>" "js ''D1''" doctorProfile]
    by blast
qed

subsection \<open>C4: a patient's own uid\<close>

text \<open>
  C4. For a patient caller with a uid that is not blank, the result holds the uid, for
  every store and every choice of failing lookups.
\<close>
theorem patient_uid_in_result:
  assumes "isPatient p" and "nonBlank userUid"
  shows "userUid \<in> set (resolvePatientIds fs requestedId userUid p)"
  using assms userUid_collected [of p userUid fs requestedId]
  by (simp add: resolvePatientIds_def nonBlank_def)

theorem patient_uid_in_result_witness:
  "isPatient patientProfile \<and> nonBlank (js ''U1'') \<and>
   js ''U1'' \<in> set (resolvePatientIds \<lparr>docs = [chartC1], fails = outage\<rparr> (js ''C1'') (js ''U1'') patientProfile)"
proof -
  have a: "isPatient patientProfile"
    by (simp add: isPatient_def patientProfile_def js_def toLowerCase_def lowerUnit_def)
  have b: "nonBlank (js ''U1'')"
    by (simp add: nonBlank_def trim_def isWhiteSpace_def js_def)
  show ?thesis
    using a b patient_uid_in_result [OF a b, of "\<lparr>docs = [chartC1], fails = outage\<rparr>" "js ''C1''"]
    by simp
qed

subsection \<open>C5: failing lookups\<close>

text \<open>
  C5, as stated, fails: a patient asks for the own uid U1, the search on the field
  \<open>id\<close> fails, and the search on \<open>userId\<close> would succeed and find the chart C9. That
  second search is not sent, and C9 is not in the result.
\<close>
theorem failing_lookup_counterexample:
  "fails \<lparr>docs = [chartC9], fails = idSearchFails\<rparr> (WhereEq FieldId (js ''U1'') 5) \<and>
   \<not> fails \<lparr>docs = [chartC9], fails = idSearchFails\<rparr> (WhereEq FieldUserId (js ''U1'') 5) \<and>
   answer \<lparr>docs = [chartC9], fails = idSearchFails\<rparr> (WhereEq FieldUserId (js ''U1'') 5) = [chartC9] \<and>
   lookupsSent \<lparr>docs = [chartC9], fails = idSearchFails\<rparr> (js ''U1'') (js ''U1'') patientProfile =
     [WhereEq FieldId (js ''U1'') 5] \<and>
   resolvePatientIds \<lparr>docs = [chartC9], fails = idSearchFails\<rparr> (js ''U1'') (js ''U1'') patientProfile =
     [js ''U1'']"
  by (simp add: resolver_defs example_defs idSearchFails_def)

text \<open>
  C5, amended: each strategy is wrapped as a whole, not each lookup. Whatever fails, a
  strategy keeps the ids collected before it ran; its lookups are sent in order up to
  and including the first one that fails, and none after that one; the documents found
  by the lookups that succeeded before the failure are in the set; the first lookup of
  the strategy that applies to the caller is always sent; and the result lies between
  the result under a total outage and the result when nothing fails.
\<close>
theorem failing_lookup_ends_its_strategy:
  "set (patientIds s) \<subseteq> set (patientIds (strategy1b fs p s)) \<and>
   set (patientIds s) \<subseteq> set (patientIds (strategy2 fs r s)) \<and>
   set (patientIds s) \<subseteq> set (patientIds (strategy2c fs r u s)) \<and>
   set (patientIds s) \<subseteq> set (patientIds (strategy3 fs r s)) \<and>
   (phone p = Some ph \<longrightarrow>
      queries (strategy1b fs p s) =
        queries s @ untilFailure (fails fs) [WhereEq FieldPhone (trim ph) 5]) \<and>
   queries (strategy2 fs r s) =
     queries s @ untilFailure (fails fs) [WhereEq FieldId r 5, WhereEq FieldUserId r 5, DocGet r] \<and>
   queries (strategy2c fs r u s) =
     queries s @ untilFailure (fails fs)
       (DocGet r # (if u \<noteq> [] then [WhereEq FieldId u 5, WhereEq FieldUserId u 5] else [])) \<and>
   queries (strategy3 fs r s) =
     queries s @ untilFailure (fails fs)
       (DocGet r # (if answer fs (DocGet r) = [] then [WhereEq FieldId r 1, WhereEq FieldUserId r 1]
                    else [])) \<and>
   (\<not> fails fs (WhereEq FieldId r 5) \<longrightarrow>
      docId ` set (answer fs (WhereEq FieldId r 5)) \<subseteq> set (patientIds (strategy2 fs r s))) \<and>
   (\<not> fails fs (WhereEq FieldId r 5) \<and> \<not> fails fs (WhereEq FieldUserId r 5) \<longrightarrow>
      docId ` set (answer fs (WhereEq FieldUserId r 5)) \<subseteq> set (patientIds (strategy2 fs r s))) \<and>
   (u \<noteq> [] \<and> \<not> fails fs (DocGet r) \<and> \<not> fails fs (WhereEq FieldId u 5) \<longrightarrow>
      docId ` set (answer fs (WhereEq FieldId u 5)) \<subseteq> set (patientIds (strategy2c fs r u s))) \<and>
   (answer fs (DocGet r) = [] \<and> \<not> fails fs (DocGet r) \<and> \<not> fails fs (WhereEq FieldId r 1) \<longrightarrow>
      docId ` set (answer fs (WhereEq FieldId r 1)) \<subseteq> set (patientIds (strategy3 fs r s))) \<and>
   (isPatient p \<and> u = r \<longrightarrow> WhereEq FieldId r 5 \<in> set (lookupsSent fs r u p)) \<and>
   (isPatient p \<and> u \<noteq> r \<and> r \<noteq> [] \<longrightarrow> DocGet r \<in> set (lookupsSent fs r u p)) \<and>
   (\<not> isPatient p \<and> r \<noteq> [] \<longrightarrow> DocGet r \<in> set (lookupsSent fs r u p)) \<and>
   set (resolvePatientIds (fs\<lparr>fails := outage\<rparr>) r u p) \<subseteq> set (resolvePatientIds fs r u p) \<and>
   set (resolvePatientIds fs r u p) \<subseteq> set (resolvePatientIds (fs\<lparr>fails := noFailures\<rparr>) r u p)"
proof -
  have kept: "set (patientIds s) \<subseteq> set (patientIds (strategy1b fs p s))"
    "set (patientIds s) \<subseteq> set (patientIds (strategy2 fs r s))"
    "set (patientIds s) \<subseteq> set (patientIds (strategy2c fs r u s))"
    "set (patientIds s) \<subseteq> set (patientIds (strategy3 fs r s))"
    by (auto intro: in_strategies)
  have q1b: "phone p = Some ph \<longrightarrow>
      queries (strategy1b fs p s) =
        queries s @ untilFailure (fails fs) [WhereEq FieldPhone (trim ph) 5]"
    using queries_strategy1b [of p ph fs s] by blast
  show ?thesis
    by (intro conjI kept q1b queries_strategy2 queries_strategy2c queries_strategy3
          found_strategy2 found_strategy2c found_strategy3 first_lookup_sent
          resolve_outage_le resolve_le_noFailures)
qed

theorem failing_lookup_ends_its_strategy_witness:
  "\<not> fails \<lparr>docs = [chartC5, chartC9], fails = userIdSearchFails\<rparr> (WhereEq FieldId (js ''U1'') 5) \<and>
   fails \<lparr>docs = [chartC5, chartC9], fails = userIdSearchFails\<rparr> (WhereEq FieldUserId (js ''U1'') 5) \<and>
   isPatient patientProfile \<and>
   lookupsSent \<lparr>docs = [chartC5, chartC9], fails = userIdSearchFails\<rparr> (js ''U1'') (js ''U1'')
     patientProfile = [WhereEq FieldId (js ''U1'') 5, WhereEq FieldUserId (js ''U1'') 5] \<and>
   js ''C5'' \<in> set (patientIds (runResolver \<lparr>docs = [chartC5, chartC9], fails = userIdSearchFails\<rparr>
     (js ''U1'') (js ''U1'') patientProfile)) \<and>
   resolvePatientIds \<lparr>docs = [chartC5, chartC9], fails = userIdSearchFails\<rparr> (js ''U1'') (js ''U1'')
     patientProfile = [js ''U1'', js ''C5'']"
proof -
  let ?fs = "\<lparr>docs = [chartC5, chartC9], fails = userIdSearchFails\<rparr>"
  let ?s = "add (js ''U1'') \<lparr>patientIds = [], queries = []\<rparr>"
  have ok: "\<not> fails ?fs (WhereEq FieldId (js ''U1'') 5)"
    and bad: "fails ?fs (WhereEq FieldUserId (js ''U1'') 5)"
    by (simp_all add: userIdSearchFails_def)
  have run: "runResolver ?fs (js ''U1'') (js ''U1'') patientProfile = strategy2 ?fs (js ''U1'') ?s"
    using isPatient_patientProfile
    by (simp add: runResolver_def Let_def strategy1_def patientProfile_def js_def add_def setAdd_def)
  note t = failing_lookup_ends_its_strategy [of ?s ?fs patientProfile "js ''U1''" "js ''U1''"]
  from t have "queries (strategy2 ?fs (js ''U1'') ?s) =
     queries ?s @ untilFailure (fails ?fs)
       [WhereEq FieldId (js ''U1'') 5, WhereEq FieldUserId (js ''U1'') 5, DocGet (js ''U1'')]"
    by blast
  with ok bad have a: "lookupsSent ?fs (js ''U1'') (js ''U1'') patientProfile =
      [WhereEq FieldId (js ''U1'') 5, WhereEq FieldUserId (js ''U1'') 5]"
    by (simp add: lookupsSent_def run)
  from t ok have "docId ` set (answer ?fs (WhereEq FieldId (js ''U1'') 5))
      \<subseteq> set (patientIds (strategy2 ?fs (js ''U1'') ?s))"
    by blast
  then have b: "js ''C5'' \<in> set (patientIds (runResolver ?fs (js ''U1'') (js ''U1'') patientProfile))"
    unfolding run by (simp add: answer_def fieldOf_def chartC5_def chartC9_def js_def)
  have c: "resolvePatientIds ?fs (js ''U1'') (js ''U1'') patientProfile = [js ''U1'', js ''C5'']"
    by (simp add: resolver_defs example_defs chartC5_def userIdSearchFails_def)
  from ok bad a b c show ?thesis
    using isPatient_patientProfile by simp
qed

subsection \<open>C6: staff lookups\<close>

text \<open>
  C6. A staff caller with a requested id that is not blank, a store where no lookup
  fails and document ids are unique. When a chart has the requested id, the only lookup
  sent is the fetch of that chart, and the result is the requested id, the profile's
  linked id and the chart's \<open>userId\<close> (the elements that are not blank). When no chart
  has it, the fetch is followed by the two searches with limit 1, on the field \<open>id\<close>
  and on \<open>userId\<close>, and the document id of the first chart of each is added. For a
  doctor asking for U1, with the chart C9 of \<open>userId\<close> U1 alone in the store, the
  result is U1 and C9.
\<close>
theorem staff_lookups:
  assumes staff: "\<not> isPatient p" and rid: "nonBlank requestedId"
    and ok: "\<forall>q. \<not> fails fs q" and uniq: "distinct (map docId (docs fs))"
  shows "(\<forall>c\<in>set (docs fs). docId c = requestedId \<longrightarrow>
            lookupsSent fs requestedId userUid p = [DocGet requestedId] \<and>
            set (resolvePatientIds fs requestedId userUid p) =
              {x \<in> {requestedId} \<union> set_option (map_option trim (patientId p)) \<union>
                    set_option (userId c). nonBlank x}) \<and>
         ((\<forall>c\<in>set (docs fs). docId c \<noteq> requestedId) \<longrightarrow>
            lookupsSent fs requestedId userUid p =
              [DocGet requestedId, WhereEq FieldId requestedId 1,
               WhereEq FieldUserId requestedId 1] \<and>
            set (resolvePatientIds fs requestedId userUid p) =
              {x \<in> {requestedId} \<union> set_option (map_option trim (patientId p)) \<union>
                    docId ` set (take 1 (filter (\<lambda>c. idField c = Some requestedId) (docs fs))) \<union>
                    docId ` set (take 1 (filter (\<lambda>c. userId c = Some requestedId) (docs fs))).
               nonBlank x}) \<and>
         set (resolvePatientIds \<lparr>docs = [chartC9], fails = noFailures\<rparr> (js ''U1'') userUid
                doctorProfile) = {js ''U1'', js ''C9''}"
proof (intro conjI ballI impI)
  from rid have ne: "requestedId \<noteq> []" by (simp add: nonBlank_def)
  let ?s = "strategy1 p (add requestedId \<lparr>patientIds = [], queries = []\<rparr>)"
  have run: "runResolver fs requestedId userUid p = strategy3 fs requestedId ?s"
    using staff ne by (simp add: runResolver_def Let_def)
  {
    fix c assume c: "c \<in> set (docs fs)" "docId c = requestedId"
    then have a: "answer fs (DocGet requestedId) = [c]"
      using answer_DocGet_exists [OF uniq, of c] by simp
    show "lookupsSent fs requestedId userUid p = [DocGet requestedId]"
      using ok a by (simp add: lookupsSent_def run strategy3_def get_def split: option.splits)
    show "set (resolvePatientIds fs requestedId userUid p) =
              {x \<in> {requestedId} \<union> set_option (map_option trim (patientId p)) \<union>
                    set_option (userId c). nonBlank x}"
      using ok a
      by (auto simp: resolvePatientIds_def run strategy3_def get_def patientIds_strategy1
            dest: nonBlank_not_Nil split: option.splits)
  }
  {
    assume "\<forall>c\<in>set (docs fs). docId c \<noteq> requestedId"
    then have a: "answer fs (DocGet requestedId) = []"
      by (rule answer_DocGet_none)
    show "lookupsSent fs requestedId userUid p =
              [DocGet requestedId, WhereEq FieldId requestedId 1,
               WhereEq FieldUserId requestedId 1]"
      using ok a
      by (simp add: lookupsSent_def run strategy3_def get_def Let_def queries_addFirst)
    show "set (resolvePatientIds fs requestedId userUid p) =
              {x \<in> {requestedId} \<union> set_option (map_option trim (patientId p)) \<union>
                    docId ` set (take 1 (filter (\<lambda>c. idField c = Some requestedId) (docs fs))) \<union>
                    docId ` set (take 1 (filter (\<lambda>c. userId c = Some requestedId) (docs fs))).
               nonBlank x}"
      using ok a
      by (auto simp: resolvePatientIds_def run strategy3_def get_def Let_def patientIds_strategy1
            patientIds_addFirst answer_def fieldOf_def dest: nonBlank_not_Nil)
  }
  show "set (resolvePatientIds \<lparr>docs = [chartC9], fails = noFailures\<rparr> (js ''U1'') userUid
                doctorProfile) = {js ''U1'', js ''C9''}"
    by (simp add: resolver_defs example_defs insert_commute)
qed

theorem staff_lookups_witness:
  "\<not> isPatient doctorProfile \<and> nonBlank (js ''C9'') \<and> nonBlank (js ''U1'') \<and>
   lookupsSent \<lparr>docs = [chartC9], fails = noFailures\<rparr> (js ''C9'') (js ''D1'') doctorProfile =
     [DocGet (js ''C9'')] \<and>
   set (resolvePatientIds \<lparr>docs = [chartC9], fails = noFailures\<rparr> (js ''C9'') (js ''D1'')
          doctorProfile) = {js ''C9'', js ''U1''} \<and>
   lookupsSent \<lparr>docs = [chartC9], fails = noFailures\<rparr> (js ''U1'') (js ''D1'') doctorProfile =
     [DocGet (js ''U1''), WhereEq FieldId (js ''U1'') 1, WhereEq FieldUserId (js ''U1'') 1] \<and>
   set (resolvePatientIds \<lparr>docs = [chartC9], fails = noFailures\<rparr> (js ''U1'') (js ''D1'')
          doctorProfile) = {js ''U1'', js ''C9''}"
proof -
  let ?fs = "\<lparr>docs = [chartC9], fails = noFailures\<rparr>"
  have ok: "\<forall>q. \<not> fails ?fs q" by (simp add: noFailures_def)
  have uniq: "distinct (map docId (docs ?fs))" by simp
  note there = staff_lookups [OF not_isPatient_doctorProfile nonBlank_examples(3) ok uniq,
      of "js ''D1''"]
  note absent = staff_lookups [OF not_isPatient_doctorProfile nonBlank_examples(1) ok uniq,
      of "js ''D1''"]
  have c9: "docId chartC9 = js ''C9''" "docId chartC9 \<noteq> js ''U1''"
    by (simp_all add: chartC9_def js_def)
  from there c9 have a: "lookupsSent ?fs (js ''C9'') (js ''D1'') doctorProfile = [DocGet (js ''C9'')]"
    and "set (resolvePatientIds ?fs (js ''C9'') (js ''D1'') doctorProfile) =
      {x \<in> {js ''C9''} \<union> set_option (map_option trim (patientId doctorProfile)) \<union>
            set_option (userId chartC9). nonBlank x}"
    by simp_all
  then have b: "set (resolvePatientIds ?fs (js ''C9'') (js ''D1'') doctorProfile) =
      {js ''C9'', js ''U1''}"
    using nonBlank_examples by (auto simp: doctorProfile_def chartC9_def)
  have none: "\<forall>c\<in>set (docs ?fs). docId c \<noteq> js ''U1''"
    using c9 by simp
  from absent none have c: "lookupsSent ?fs (js ''U1'') (js ''D1'') doctorProfile =
      [DocGet (js ''U1''), WhereEq FieldId (js ''U1'') 1, WhereEq FieldUserId (js ''U1'') 1]"
    by blast
  from absent have d: "set (resolvePatientIds ?fs (js ''U1'') (js ''D1'') doctorProfile) =
      {js ''U1'', js ''C9''}"
    by blast
  from a b c d show ?thesis
    using not_isPatient_doctorProfile nonBlank_examples by simp
qed

subsection \<open>C7: a patient asking by chart id\<close>

text \<open>
  C7. A patient asking for an id that is neither the own uid nor empty: the chart of
  that id is fetched; when the fetch succeeds and the chart has a \<open>userId\<close> that is not
  blank, the result holds it. For the patient U1 asking for C1, with the chart C1 of
  \<open>userId\<close> U1 alone in the store, the result is exactly C1 and U1.
\<close>
theorem patient_chart_id_lookup:
  assumes pat: "isPatient p" and other: "userUid \<noteq> requestedId" and ne: "requestedId \<noteq> []"
  shows "DocGet requestedId \<in> set (lookupsSent fs requestedId userUid p) \<and>
         (\<forall>c\<in>set (docs fs). \<forall>u.
            \<not> fails fs (DocGet requestedId) \<and> distinct (map docId (docs fs)) \<and>
            docId c = requestedId \<and> userId c = Some u \<and> nonBlank u \<longrightarrow>
            u \<in> set (resolvePatientIds fs requestedId userUid p)) \<and>
         resolvePatientIds \<lparr>docs = [chartC1], fails = noFailures\<rparr> (js ''C1'') (js ''U1'')
           patientProfile = [js ''C1'', js ''U1'']"
proof (intro conjI ballI allI impI)
  let ?s = "strategy1 p (if userUid \<noteq> [] then add userUid (add requestedId \<lparr>patientIds = [], queries = []\<rparr>)
     else add requestedId \<lparr>patientIds = [], queries = []\<rparr>)"
  have run: "runResolver fs requestedId userUid p = strategy2c fs requestedId userUid ?s"
    using pat other ne by (simp add: runResolver_def Let_def)
  show "DocGet requestedId \<in> set (lookupsSent fs requestedId userUid p)"
    by (auto simp: lookupsSent_def run strategy2c_def get_def Let_def
          split: list.splits option.splits)
  {
    fix c u
    assume c: "c \<in> set (docs fs)"
      and h: "\<not> fails fs (DocGet requestedId) \<and> distinct (map docId (docs fs)) \<and>
            docId c = requestedId \<and> userId c = Some u \<and> nonBlank u"
    then have a: "answer fs (DocGet requestedId) = [c]"
      using answer_DocGet_exists [of fs c] by auto
    from h have "u \<noteq> []" by (simp add: nonBlank_def)
    with h a have "u \<in> set (patientIds (runResolver fs requestedId userUid p))"
      by (auto simp: run strategy2c_def get_def Let_def split: list.splits option.splits)
    with h show "u \<in> set (resolvePatientIds fs requestedId userUid p)"
      by (simp add: resolvePatientIds_def)
  }
  show "resolvePatientIds \<lparr>docs = [chartC1], fails = noFailures\<rparr> (js ''C1'') (js ''U1'')
           patientProfile = [js ''C1'', js ''U1'']"
    by (simp add: resolver_defs example_defs)
qed

theorem patient_chart_id_lookup_witness:
  "isPatient patientProfile \<and> js ''U1'' \<noteq> js ''C1'' \<and> js ''C1'' \<noteq> [] \<and>
   DocGet (js ''C1'') \<in> set (lookupsSent \<lparr>docs = [chartC1], fails = noFailures\<rparr> (js ''C1'')
     (js ''U1'') patientProfile) \<and>
   chartC1 \<in> set (docs \<lparr>docs = [chartC1], fails = noFailures\<rparr>) \<and>
   docId chartC1 = js ''C1'' \<and> userId chartC1 = Some (js ''U1'') \<and> nonBlank (js ''U1'') \<and>
   js ''U1'' \<in> set (resolvePatientIds \<lparr>docs = [chartC1], fails = noFailures\<rparr> (js ''C1'')
     (js ''U1'') patientProfile)"
proof -
  let ?fs = "\<lparr>docs = [chartC1], fails = noFailures\<rparr>"
  have h: "js ''U1'' \<noteq> js ''C1''" "js ''C1'' \<noteq> []"
    by (simp_all add: js_def)
  note t = patient_chart_id_lookup [OF isPatient_patientProfile h, of ?fs]
  have c1: "docId chartC1 = js ''C1''" "userId chartC1 = Some (js ''U1'')"
    by (simp_all add: chartC1_def)
  have "\<not> fails ?fs (DocGet (js ''C1''))" by (simp add: noFailures_def)
  with t c1 nonBlank_examples(1)
  have "js ''U1'' \<in> set (resolvePatientIds ?fs (js ''C1'') (js ''U1'') patientProfile)"
    by simp
  with t c1 h show ?thesis
    using isPatient_patientProfile nonBlank_examples(1) by simp
qed

subsection \<open>C8: the cache in front of the resolver\<close>




subsection \<open>C9: the clean-up after a store\<close>

text \<open>
  C9. A call that misses stores its entry. When the cache then has more than 1000
  entries, what is left is the stored cache without the entries older than
  \<open>CACHE_TTL\<close> at the time of the clean-up, so no entry left is older; when it has at
  most 1000, the stored cache is left as it is. Keys stay distinct, so the length of
  the list is the number of entries.
\<close>
theorem cache_sweep_after_store:
  assumes "map_of c (cacheKey userUid requestedId) = None \<or>
     (\<exists>e. map_of c (cacheKey userUid requestedId) = Some e \<and> \<not> t1 - timestamp e < CACHE_TTL)"
  shows "let stored = mapSet (cacheKey userUid requestedId)
                        \<lparr>ids = resolvePatientIds fs requestedId userUid p, timestamp = t2\<rparr> c;
             after = cacheAfter (resolvePatientIdsCached fs t1 t2 t3 c requestedId userUid p)
         in (1000 < length stored \<longrightarrow>
               after = filter (\<lambda>kv. t3 - timestamp (snd kv) \<le> CACHE_TTL) stored \<and>
               (\<forall>kv\<in>set after. t3 - timestamp (snd kv) \<le> CACHE_TTL)) \<and>
            (length stored \<le> 1000 \<longrightarrow> after = stored) \<and>
            (distinct (map fst c) \<longrightarrow> distinct (map fst stored) \<and> distinct (map fst after))"
proof -
  let ?stored = "mapSet (cacheKey userUid requestedId)
      \<lparr>ids = resolvePatientIds fs requestedId userUid p, timestamp = t2\<rparr> c"
  have after: "cacheAfter (resolvePatientIdsCached fs t1 t2 t3 c requestedId userUid p) =
      (if 1000 < length ?stored then sweep t3 ?stored else ?stored)"
    by (simp add: cached_miss [OF assms] resolveAndCache_def Let_def)
  have "distinct (map fst (sweep t3 ?stored))" and "distinct (map fst ?stored)"
    if "distinct (map fst c)"
    using that by (simp_all add: distinct_sweep distinct_mapSet)
  then show ?thesis
    unfolding Let_def after by (auto simp: sweep_eq)
qed

theorem cache_sweep_after_store_witness:
  "map_of staleCache (cacheKey (js ''D1'') (js ''U1'')) = None \<and>
   length staleCache = 1001 \<and>
   cacheAfter (resolvePatientIdsCached \<lparr>docs = [chartC9], fails = noFailures\<rparr> 400000 400000 400000
     staleCache (js ''U1'') (js ''D1'') doctorProfile) =
     [(cacheKey (js ''D1'') (js ''U1''), \<lparr>ids = [js ''U1'', js ''C9''], timestamp = 400000\<rparr>)] \<and>
   map_of cachedOther (cacheKey (js ''D1'') (js ''U1'')) = None \<and>
   distinct (map fst cachedOther) \<and>
   cacheAfter (resolvePatientIdsCached \<lparr>docs = [chartC9], fails = noFailures\<rparr> 400000 400000 400000
     cachedOther (js ''U1'') (js ''D1'') doctorProfile) =
     cachedOther @
     [(cacheKey (js ''D1'') (js ''U1''), \<lparr>ids = [js ''U1'', js ''C9''], timestamp = 400000\<rparr>)]"
proof -
  let ?fs = "\<lparr>docs = [chartC9], fails = noFailures\<rparr>"
  let ?k = "cacheKey (js ''D1'') (js ''U1'')"
  let ?new = "\<lparr>ids = [js ''U1'', js ''C9''], timestamp = 400000\<rparr>"
  let ?fresh = "\<lambda>kv. 400000 - timestamp (snd kv) \<le> CACHE_TTL"
  have k: "?k \<notin> fst ` set staleCache"
  proof
    assume "?k \<in> fst ` set staleCache"
    then have "set ?k \<subseteq> {0x61}" by (rule staleCache_keys)
    then show False by (simp add: cacheKey_def js_def)
  qed
  then have none: "map_of staleCache ?k = None"
    by (simp add: map_of_eq_None_iff)
  have stored: "mapSet ?k ?new staleCache = staleCache @ [(?k, ?new)]"
    using k by (rule mapSet_new)
  have big: "1000 < length (mapSet ?k ?new staleCache)"
    unfolding stored by (simp add: length_staleCache)
  have gone: "filter ?fresh staleCache = []"
    by (auto simp: filter_empty_conv staleCache_old CACHE_TTL_def)
  have new: "filter ?fresh [(?k, ?new)] = [(?k, ?new)]"
    by (simp add: CACHE_TTL_def)
  note swept = cache_sweep_after_store [where c = staleCache and userUid = "js ''D1''"
      and requestedId = "js ''U1''" and ?t1.0 = 400000 and fs = ?fs and ?t2.0 = 400000
      and ?t3.0 = 400000 and p = doctorProfile, unfolded Let_def doctor_U1_C9, OF disjI1, OF none]
  from swept big have "cacheAfter (resolvePatientIdsCached ?fs 400000 400000 400000 staleCache
      (js ''U1'') (js ''D1'') doctorProfile) = filter ?fresh (mapSet ?k ?new staleCache)"
    by blast
  also have "\<dots> = [(?k, ?new)]"
    unfolding stored filter_append gone new by simp
  finally have a: "cacheAfter (resolvePatientIdsCached ?fs 400000 400000 400000 staleCache
      (js ''U1'') (js ''D1'') doctorProfile) = [(?k, ?new)]" .
  have other: "map_of cachedOther ?k = None" and dist: "distinct (map fst cachedOther)"
    by (simp_all add: cachedOther_def cacheKey_def js_def)
  have small: "mapSet ?k ?new cachedOther = cachedOther @ [(?k, ?new)]"
    and few: "length (mapSet ?k ?new cachedOther) \<le> 1000"
    by (simp_all add: cachedOther_def cacheKey_def js_def)
  note kept = cache_sweep_after_store [where c = cachedOther and userUid = "js ''D1''"
      and requestedId = "js ''U1''" and ?t1.0 = 400000 and fs = ?fs and ?t2.0 = 400000
      and ?t3.0 = 400000 and p = doctorProfile, unfolded Let_def doctor_U1_C9, OF disjI1, OF other]
  from kept few have "cacheAfter (resolvePatientIdsCached ?fs 400000 400000 400000 cachedOther
      (js ''U1'') (js ''D1'') doctorProfile) = mapSet ?k ?new cachedOther"
    by blast
  then have b: "cacheAfter (resolvePatientIdsCached ?fs 400000 400000 400000 cachedOther
      (js ''U1'') (js ''D1'') doctorProfile) = cachedOther @ [(?k, ?new)]"
    unfolding small .
  from none length_staleCache a other dist b show ?thesis
    by (intro conjI)
qed

subsection \<open>C10: the patient test ignores letter case\<close>

text \<open>
  C10. A profile whose role, as a string, is \<open>patient\<close> up to the case of its letters
  is a patient caller: the run is the patient's strategies (the own uid, strategies 1,
  1b under its guard, 2 or 2c) without strategy 3. A profile with no role, or with any
  other role, is a staff caller: the run is strategy 1 and strategy 3.
\<close>
theorem patient_role_test:
  "((\<exists>r. role p = Some r \<and> equalIgnoringCase r (js ''patient'')) \<longrightarrow>
      isPatient p \<and>
      runResolver fs requestedId userUid p =
        (let s0 = add requestedId \<lparr>patientIds = [], queries = []\<rparr>;
             s2 = strategy1 p (if userUid \<noteq> [] then add userUid s0 else s0);
             s3 = (if phoneGuard p then strategy1b fs p s2 else s2)
         in if userUid = requestedId then strategy2 fs requestedId s3
            else if requestedId \<noteq> [] then strategy2c fs requestedId userUid s3
            else s3)) \<and>
   (role p = None \<or> (\<exists>r. role p = Some r \<and> \<not> equalIgnoringCase r (js ''patient'')) \<longrightarrow>
      \<not> isPatient p \<and>
      runResolver fs requestedId userUid p =
        (let s2 = strategy1 p (add requestedId \<lparr>patientIds = [], queries = []\<rparr>)
         in if requestedId \<noteq> [] then strategy3 fs requestedId s2 else s2))"
proof (intro conjI impI)
  assume "\<exists>r. role p = Some r \<and> equalIgnoringCase r (js ''patient'')"
  then show pat: "isPatient p" by (simp add: isPatient_iff)
  then show "runResolver fs requestedId userUid p =
        (let s0 = add requestedId \<lparr>patientIds = [], queries = []\<rparr>;
             s2 = strategy1 p (if userUid \<noteq> [] then add userUid s0 else s0);
             s3 = (if phoneGuard p then strategy1b fs p s2 else s2)
         in if userUid = requestedId then strategy2 fs requestedId s3
            else if requestedId \<noteq> [] then strategy2c fs requestedId userUid s3
            else s3)"
    by (simp add: runResolver_def Let_def)
next
  assume "role p = None \<or> (\<exists>r. role p = Some r \<and> \<not> equalIgnoringCase r (js ''patient''))"
  then show staff: "\<not> isPatient p" by (auto simp: isPatient_iff)
  then show "runResolver fs requestedId userUid p =
        (let s2 = strategy1 p (add requestedId \<lparr>patientIds = [], queries = []\<rparr>)
         in if requestedId \<noteq> [] then strategy3 fs requestedId s2 else s2)"
    by (simp add: runResolver_def Let_def)
qed

theorem patient_role_test_witness:
  "equalIgnoringCase (js ''PATIENT'') (js ''patient'') \<and>
   isPatient patientUpperCase \<and>
   resolvePatientIds \<lparr>docs = [chartC1], fails = noFailures\<rparr> (js ''C1'') (js ''U1'')
     patientUpperCase = [js ''C1'', js ''U1''] \<and>
   lookupsSent \<lparr>docs = [chartC1], fails = noFailures\<rparr> (js ''C1'') (js ''U1'')
     patientUpperCase =
     [DocGet (js ''C1''), WhereEq FieldId (js ''U1'') 5, WhereEq FieldUserId (js ''U1'') 5] \<and>
   \<not> isPatient noRoleProfile \<and>
   lookupsSent \<lparr>docs = [chartC1], fails = noFailures\<rparr> (js ''U1'') (js ''U1'') noRoleProfile =
     [DocGet (js ''U1''), WhereEq FieldId (js ''U1'') 1, WhereEq FieldUserId (js ''U1'') 1]"
proof -
  let ?fs = "\<lparr>docs = [chartC1], fails = noFailures\<rparr>"
  have up: "equalIgnoringCase (js ''PATIENT'') (js ''patient'')"
    by (simp add: equalIgnoringCase_def sameLetter_def js_def)
  then have "\<exists>r. role patientUpperCase = Some r \<and> equalIgnoringCase r (js ''patient'')"
    by (simp add: patientUpperCase_def)
  with patient_role_test [of patientUpperCase ?fs "js ''C1''" "js ''U1''"]
  have a: "isPatient patientUpperCase"
    and b: "runResolver ?fs (js ''C1'') (js ''U1'') patientUpperCase =
        (let s0 = add (js ''C1'') \<lparr>patientIds = [], queries = []\<rparr>;
             s2 = strategy1 patientUpperCase (if js ''U1'' \<noteq> [] then add (js ''U1'') s0 else s0);
             s3 = (if phoneGuard patientUpperCase then strategy1b ?fs patientUpperCase s2 else s2)
         in if js ''U1'' = js ''C1'' then strategy2 ?fs (js ''C1'') s3
            else if js ''C1'' \<noteq> [] then strategy2c ?fs (js ''C1'') (js ''U1'') s3
            else s3)"
    by blast+
  have "role noRoleProfile = None" by (simp add: noRoleProfile_def)
  with patient_role_test [of noRoleProfile ?fs "js ''U1''" "js ''U1''"]
  have c: "\<not> isPatient noRoleProfile"
    and d: "runResolver ?fs (js ''U1'') (js ''U1'') noRoleProfile =
        (let s2 = strategy1 noRoleProfile (add (js ''U1'') \<lparr>patientIds = [], queries = []\<rparr>)
         in if js ''U1'' \<noteq> [] then strategy3 ?fs (js ''U1'') s2 else s2)"
    by blast+
  have e: "resolvePatientIds ?fs (js ''C1'') (js ''U1'') patientUpperCase = [js ''C1'', js ''U1'']"
    unfolding resolvePatientIds_def b
    by (simp add: strategy1_def strategy1b_def strategy2_def strategy2c_def
          strategy3_def get_def answer_def fieldOf_def add_def addDocs_def setAdd_def nonBlank_def
          trim_def isWhiteSpace_def example_defs patientUpperCase_def)
  have f: "lookupsSent ?fs (js ''C1'') (js ''U1'') patientUpperCase =
     [DocGet (js ''C1''), WhereEq FieldId (js ''U1'') 5, WhereEq FieldUserId (js ''U1'') 5]"
    unfolding lookupsSent_def b
    by (simp add: strategy1_def strategy1b_def strategy2_def strategy2c_def
          strategy3_def get_def answer_def fieldOf_def add_def addDocs_def setAdd_def
          example_defs patientUpperCase_def)
  have g: "lookupsSent ?fs (js ''U1'') (js ''U1'') noRoleProfile =
     [DocGet (js ''U1''), WhereEq FieldId (js ''U1'') 1, WhereEq FieldUserId (js ''U1'') 1]"
    unfolding lookupsSent_def d
    by (simp add: strategy1_def strategy1b_def strategy2_def strategy2c_def
          strategy3_def get_def answer_def fieldOf_def add_def addDocs_def setAdd_def
          example_defs noRoleProfile_def)
  from up a c e f g show ?thesis by simp
qed

end
